theory Spec2Isabelle
  imports Main
begin

section \<open>The useWebSocket hook (src/hooks/useWebSocket.ts) as an event-driven state machine\<close>

text \<open>
  The hook keeps React state (\<open>state\<close>, \<open>lastMessage\<close>, \<open>error\<close>) and refs
  (\<open>webSocketRef\<close>, \<open>retriesRef\<close>, \<open>retryTimeoutRef\<close>, \<open>messageQueueRef\<close>). Every
  \<open>new WebSocket(url)\<close> allocates a fresh browser object, and the closures \<open>handleOpen\<close>,
  \<open>handleMessage\<close>, \<open>handleError\<close>, \<open>handleClose\<close> and the connection-timeout callback of
  one call of \<open>connect\<close> are bound to that object. The model therefore keeps a store of
  sockets (index = identity of the handle) and a store of retry timers, and runs the
  handlers as reactions to single events, one at a time, as the JavaScript event loop does.

  Numbers: \<open>maxRetries\<close>, \<open>retryDelay\<close> and the retry counter are natural numbers (the
  source's doubles are exact on them up to \<open>2^53\<close>).
\<close>

subsection \<open>Data\<close>

text \<open>The exported enum \<open>WebSocketState\<close>.\<close>

datatype WebSocketState = CONNECTING | OPEN | CLOSING | CLOSED

text \<open>The browser's \<open>ws.readyState\<close> (WebSocket.CONNECTING, .OPEN, .CLOSING, .CLOSED).\<close>

datatype ready_state = WS_CONNECTING | WS_OPEN | WS_CLOSING | WS_CLOSED

text \<open>
  An outbound message is of type \<open>unknown\<close>; the drain loop tests \<open>msg !== undefined\<close>, so
  the value \<open>undefined\<close> is kept apart from the JSON-serialisable payloads.
\<close>

datatype message = Undefined | Payload string

text \<open>An inbound frame either parses (\<open>JSON.parse\<close> returns) or does not (it throws).\<close>

datatype inbound = Parsed string | Malformed

text \<open>
  The \<open>Error\<close> objects the hook creates:
  \<^item> \<open>ConnectionFailed\<close>: 'WebSocket connection failed - using mock data' (handleError);
  \<^item> \<open>RetriesExhausted\<close>: 'Real-time updates unavailable - demo mode active' (handleClose);
  \<^item> \<open>CreationError\<close>: what \<open>new WebSocket(url)\<close> threw (the catch block of connect).
\<close>

datatype ws_error = ConnectionFailed | RetriesExhausted | CreationError

text \<open>The calls made to the consumer's optional callbacks, in order.\<close>

datatype callback = OnMessage string | OnError ws_error | OnConnect | OnDisconnect

text \<open>
  One WebSocket object together with what one call of \<open>connect\<close> attached to it:
  \<open>listeners\<close> is True from the four \<open>addEventListener\<close> calls until handleClose removes
  all four; \<open>connectionTimeoutId\<close> is True while the 5 second timer is pending;
  \<open>sent\<close> is what \<open>ws.send\<close> has handed to the transport.
\<close>

record socket =
  readyState :: ready_state
  listeners :: bool
  connectionTimeoutId :: bool
  sent :: "message list"

text \<open>A timer created by the \<open>setTimeout\<close> of handleClose.\<close>

record retry_timer =
  delay :: nat
  pending :: bool

text \<open>
  The hook's arguments. \<open>url_ok\<close> says whether \<open>new WebSocket(url)\<close> returns (it throws a
  SyntaxError on a malformed url); the defaults of the source are 5, 1000 and true.
\<close>

record options =
  url_ok :: bool
  maxRetries :: nat
  retryDelay :: nat
  shouldReconnect :: bool

record hook =
  state :: WebSocketState
  lastMessage :: "string option"
  error :: "ws_error option"
  webSocketRef :: "nat option"
  retriesRef :: nat
  retryTimeoutRef :: "nat option"
  messageQueueRef :: "message list"
  sockets :: "socket list"
  timers :: "retry_timer list"
  callbacks :: "callback list"

text \<open>The values of \<open>useState\<close> and \<open>useRef\<close> at the first render.\<close>

definition initial :: hook where
  "initial = \<lparr>state = CLOSED, lastMessage = None, error = None, webSocketRef = None,
     retriesRef = 0, retryTimeoutRef = None, messageQueueRef = [], sockets = [],
     timers = [], callbacks = []\<rparr>"

subsection \<open>Browser primitives\<close>

text \<open>
  \<open>ws.close()\<close>: a connecting or open socket starts closing; on a closing or closed one
  the call does nothing. The close event comes later, as an event of its own.
\<close>

definition ws_close :: "socket \<Rightarrow> socket" where
  "ws_close ws =
     (if readyState ws = WS_CONNECTING \<or> readyState ws = WS_OPEN
      then ws\<lparr>readyState := WS_CLOSING\<rparr> else ws)"

definition upd_socket :: "nat \<Rightarrow> (socket \<Rightarrow> socket) \<Rightarrow> hook \<Rightarrow> hook" where
  "upd_socket s f h =
     (if s < length (sockets h) then h\<lparr>sockets := (sockets h)[s := f (sockets h ! s)]\<rparr> else h)"

text \<open>\<open>if (ref) clearTimeout(ref)\<close>: the ref keeps its value, a fired timer stays fired.\<close>

definition clearTimeout :: "nat option \<Rightarrow> hook \<Rightarrow> hook" where
  "clearTimeout r h =
     (case r of
        None \<Rightarrow> h
      | Some t \<Rightarrow>
          if t < length (timers h)
          then h\<lparr>timers := (timers h)[t := (timers h ! t)\<lparr>pending := False\<rparr>]\<rparr> else h)"

text \<open>\<open>retryTimeoutRef.current = setTimeout(() => connectRef.current?.(), delay)\<close>.\<close>

definition setRetryTimeout :: "nat \<Rightarrow> hook \<Rightarrow> hook" where
  "setRetryTimeout d h =
     h\<lparr>timers := timers h @ [\<lparr>delay = d, pending = True\<rparr>],
       retryTimeoutRef := Some (length (timers h))\<rparr>"

text \<open>The current handle's ready state, \<open>webSocketRef.current?.readyState\<close>.\<close>

definition currentReadyState :: "hook \<Rightarrow> ready_state option" where
  "currentReadyState h =
     (case webSocketRef h of
        None \<Rightarrow> None
      | Some c \<Rightarrow> if c < length (sockets h) then Some (readyState (sockets h ! c)) else None)"

subsection \<open>connect and the handlers it creates\<close>

text \<open>
  The \<open>while\<close> loop of handleOpen: \<open>shift()\<close> removes the head first, then the message is
  sent if it is not \<open>undefined\<close> and \<open>ws.readyState === WebSocket.OPEN\<close>. The ready state
  is read again in every iteration; \<open>rs i\<close> is what the \<open>i\<close>-th read returns. The result
  is the queue left over and the socket's \<open>sent\<close> log.
\<close>

fun drain :: "(nat \<Rightarrow> ready_state) \<Rightarrow> nat \<Rightarrow> message list \<Rightarrow> message list
    \<Rightarrow> message list \<times> message list" where
  "drain rs i [] out = ([], out)"
| "drain rs i (msg # queue) out =
     drain rs (Suc i) queue (if msg \<noteq> Undefined \<and> rs i = WS_OPEN then out @ [msg] else out)"

definition handleOpen :: "(nat \<Rightarrow> ready_state) \<Rightarrow> nat \<Rightarrow> hook \<Rightarrow> hook" where
  "handleOpen rs s h =
     (let h1 = upd_socket s (\<lambda>ws. ws\<lparr>connectionTimeoutId := False\<rparr>) h;
          h2 = h1\<lparr>state := OPEN, retriesRef := 0, error := None\<rparr>;
          (queue, out) = drain rs 0 (messageQueueRef h2) (sent (sockets h2 ! s));
          h3 = upd_socket s (\<lambda>ws. ws\<lparr>sent := out\<rparr>) (h2\<lparr>messageQueueRef := queue\<rparr>)
      in h3\<lparr>callbacks := callbacks h3 @ [OnConnect]\<rparr>)"

definition handleMessage :: "inbound \<Rightarrow> hook \<Rightarrow> hook" where
  "handleMessage ev h =
     (case ev of
        Parsed d \<Rightarrow> h\<lparr>lastMessage := Some d, callbacks := callbacks h @ [OnMessage d]\<rparr>
      | Malformed \<Rightarrow> h)"

definition handleError :: "nat \<Rightarrow> hook \<Rightarrow> hook" where
  "handleError s h =
     (let h1 = upd_socket s (\<lambda>ws. ws\<lparr>connectionTimeoutId := False\<rparr>) h
      in h1\<lparr>error := Some ConnectionFailed,
            callbacks := callbacks h1 @ [OnError ConnectionFailed]\<rparr>)"

definition handleClose :: "options \<Rightarrow> nat \<Rightarrow> hook \<Rightarrow> hook" where
  "handleClose opts s h =
     (let h1 = upd_socket s (\<lambda>ws. ws\<lparr>connectionTimeoutId := False\<rparr>) h;
          h2 = h1\<lparr>state := CLOSED, callbacks := callbacks h1 @ [OnDisconnect]\<rparr>;
          h3 = upd_socket s (\<lambda>ws. ws\<lparr>listeners := False\<rparr>) h2
      in if shouldReconnect opts \<and> retriesRef h3 < maxRetries opts then
           let h4 = h3\<lparr>retriesRef := retriesRef h3 + 1\<rparr>
           in setRetryTimeout (retryDelay opts * 2 ^ (retriesRef h4 - 1)) h4
         else if shouldReconnect opts \<and> retriesRef h3 \<ge> maxRetries opts then
           h3\<lparr>error := Some RetriesExhausted,
              callbacks := callbacks h3 @ [OnError RetriesExhausted]\<rparr>
         else h3)"

text \<open>The callback of the 5 second connection timer of socket \<open>s\<close>.\<close>

definition connectionTimeout :: "nat \<Rightarrow> hook \<Rightarrow> hook" where
  "connectionTimeout s h =
     (if readyState (sockets h ! s) = WS_CONNECTING then upd_socket s ws_close h else h)"

text \<open>
  What \<open>connect\<close> has after \<open>new WebSocket(url)\<close>, the \<open>setTimeout\<close> of 5000 ms and the
  four \<open>addEventListener\<close> calls.
\<close>

definition newWebSocket :: socket where
  "newWebSocket = \<lparr>readyState = WS_CONNECTING, listeners = True,
     connectionTimeoutId = True, sent = []\<rparr>"

text \<open>
  \<open>connect\<close>: return if the current handle is open; otherwise \<open>close()\<close> the current
  handle unless it is closed, set the state to CONNECTING and construct the socket. The
  \<open>catch\<close> block is the branch of a constructor that throws: it sets the error, calls
  \<open>onError\<close> and sets the state to CLOSED, and \<open>webSocketRef\<close> keeps its old value.
\<close>

definition connect :: "options \<Rightarrow> hook \<Rightarrow> hook" where
  "connect opts h =
     (if currentReadyState h = Some WS_OPEN then h
      else
        let h1 = (case webSocketRef h of
                    None \<Rightarrow> h
                  | Some c \<Rightarrow>
                      if currentReadyState h \<noteq> Some WS_CLOSED then upd_socket c ws_close h
                      else h);
            h2 = h1\<lparr>state := CONNECTING\<rparr>
        in if url_ok opts then
             h2\<lparr>sockets := sockets h2 @ [newWebSocket],
                webSocketRef := Some (length (sockets h2))\<rparr>
           else
             h2\<lparr>error := Some CreationError,
                callbacks := callbacks h2 @ [OnError CreationError],
                state := CLOSED\<rparr>)"

subsection \<open>The operations the hook returns, and the mount effect\<close>

text \<open>
  \<open>sendMessage\<close>: hand the message to the current handle if that is open, queue it
  otherwise. \<open>ws.send\<close> does not throw on an open socket and \<open>JSON.stringify\<close> does not
  throw on a JSON payload, so the \<open>catch\<close> block of the first branch is not reached.
\<close>

definition sendMessage :: "message \<Rightarrow> hook \<Rightarrow> hook" where
  "sendMessage m h =
     (if currentReadyState h = Some WS_OPEN then
        (case webSocketRef h of
           None \<Rightarrow> h
         | Some c \<Rightarrow> upd_socket c (\<lambda>ws. ws\<lparr>sent := sent ws @ [m]\<rparr>) h)
      else h\<lparr>messageQueueRef := messageQueueRef h @ [m]\<rparr>)"

text \<open>
  \<open>reconnect\<close>, in the order of the source: \<open>close()\<close> the current handle, reset the
  counter, clear the timer in \<open>retryTimeoutRef\<close>, clear the error, call the stored
  \<open>connect\<close>.
\<close>

definition reconnect :: "options \<Rightarrow> hook \<Rightarrow> hook" where
  "reconnect opts h =
     (let h1 = (case webSocketRef h of None \<Rightarrow> h | Some c \<Rightarrow> upd_socket c ws_close h);
          h2 = h1\<lparr>retriesRef := 0\<rparr>;
          h3 = clearTimeout (retryTimeoutRef h2) h2;
          h4 = h3\<lparr>error := None\<rparr>
      in connect opts h4)"

text \<open>The mount effect calls \<open>connect()\<close>; the function it returns runs on unmount.\<close>

definition mount :: "options \<Rightarrow> hook" where
  "mount opts = connect opts initial"

definition cleanup :: "hook \<Rightarrow> hook" where
  "cleanup h =
     (let h1 = clearTimeout (retryTimeoutRef h) h
      in case webSocketRef h1 of None \<Rightarrow> h1 | Some c \<Rightarrow> upd_socket c ws_close h1)"

subsection \<open>Events\<close>

text \<open>
  What can happen to a mounted hook: the browser delivers an event of a socket, a timer
  fires, or the consumer calls one of the operations. A socket event first changes the
  ready state, as the browser does, and then runs the handler if the listeners are still
  attached. \<open>enabled\<close> says which events the browser can deliver: \<open>open\<close> only to a
  connecting socket, nothing to a closed one, a timer only while it is pending.
\<close>

datatype event =
    SockOpen nat
  | SockMessage nat inbound
  | SockError nat
  | SockClose nat
  | ConnTimeoutFire nat
  | RetryFire nat
  | Send message
  | Reconnect
  | Unmount

fun enabled :: "event \<Rightarrow> hook \<Rightarrow> bool" where
  "enabled (SockOpen s) h = (s < length (sockets h) \<and> readyState (sockets h ! s) = WS_CONNECTING)"
| "enabled (SockMessage s d) h =
     (s < length (sockets h) \<and> readyState (sockets h ! s) \<in> {WS_OPEN, WS_CLOSING})"
| "enabled (SockError s) h = (s < length (sockets h) \<and> readyState (sockets h ! s) \<noteq> WS_CLOSED)"
| "enabled (SockClose s) h = (s < length (sockets h) \<and> readyState (sockets h ! s) \<noteq> WS_CLOSED)"
| "enabled (ConnTimeoutFire s) h = (s < length (sockets h) \<and> connectionTimeoutId (sockets h ! s))"
| "enabled (RetryFire t) h = (t < length (timers h) \<and> pending (timers h ! t))"
| "enabled (Send m) h = True"
| "enabled Reconnect h = True"
| "enabled Unmount h = True"

fun fire :: "options \<Rightarrow> event \<Rightarrow> hook \<Rightarrow> hook" where
  "fire opts (SockOpen s) h =
     (let h1 = upd_socket s (\<lambda>ws. ws\<lparr>readyState := WS_OPEN\<rparr>) h
      in if listeners (sockets h1 ! s)
         then handleOpen (\<lambda>i. readyState (sockets h1 ! s)) s h1 else h1)"
| "fire opts (SockMessage s d) h = (if listeners (sockets h ! s) then handleMessage d h else h)"
| "fire opts (SockError s) h = (if listeners (sockets h ! s) then handleError s h else h)"
| "fire opts (SockClose s) h =
     (let h1 = upd_socket s (\<lambda>ws. ws\<lparr>readyState := WS_CLOSED\<rparr>) h
      in if listeners (sockets h1 ! s) then handleClose opts s h1 else h1)"
| "fire opts (ConnTimeoutFire s) h =
     connectionTimeout s (upd_socket s (\<lambda>ws. ws\<lparr>connectionTimeoutId := False\<rparr>) h)"
| "fire opts (RetryFire t) h =
     connect opts (h\<lparr>timers := (timers h)[t := (timers h ! t)\<lparr>pending := False\<rparr>]\<rparr>)"
| "fire opts (Send m) h = sendMessage m h"
| "fire opts Reconnect h = reconnect opts h"
| "fire opts Unmount h = cleanup h"

definition step :: "options \<Rightarrow> event \<Rightarrow> hook \<Rightarrow> hook option" where
  "step opts ev h = (if enabled ev h then Some (fire opts ev h) else None)"

fun run :: "options \<Rightarrow> event list \<Rightarrow> hook \<Rightarrow> hook option" where
  "run opts [] h = Some h"
| "run opts (ev # evs) h =
     (case step opts ev h of None \<Rightarrow> None | Some h' \<Rightarrow> run opts evs h')"


subsection \<open>Traces\<close>

text \<open>The messages passed to \<open>sendMessage\<close> in a trace, in call order.\<close>

fun sends :: "event list \<Rightarrow> message list" where
  "sends [] = []"
| "sends (Send m # evs) = m # sends evs"
| "sends (ev # evs) = sends evs"

text \<open>A trace in which no socket opens.\<close>

fun no_open :: "event list \<Rightarrow> bool" where
  "no_open [] = True"
| "no_open (SockOpen s # evs) = False"
| "no_open (ev # evs) = no_open evs"

text \<open>
  The policy of the scenarios of the specification: three retries, 2000 ms base delay.
\<close>

definition policy3 :: options where
  "policy3 = \<lparr>url_ok = True, maxRetries = 3, retryDelay = 2000, shouldReconnect = True\<rparr>"


text \<open>The same policy with a url that \<open>new WebSocket\<close> rejects.\<close>

definition bad_url :: options where
  "bad_url = \<lparr>url_ok = False, maxRetries = 3, retryDelay = 2000, shouldReconnect = True\<rparr>"

subsection \<open>Runs in which every attempt fails\<close>

text \<open>
  How one connection attempt can end without ever opening: the close event alone, an
  error event and the close event (what a browser delivers for a refused connection), or
  the 5 second timer firing first and forcing the close, with or without an error event.
\<close>

datatype failure = Dropped | Refused | TimedOut | TimedOutSilently

fun failure_events :: "nat \<Rightarrow> failure \<Rightarrow> event list" where
  "failure_events s Dropped = [SockClose s]"
| "failure_events s Refused = [SockError s, SockClose s]"
| "failure_events s TimedOut = [ConnTimeoutFire s, SockError s, SockClose s]"
| "failure_events s TimedOutSilently = [ConnTimeoutFire s, SockClose s]"

text \<open>
  The trace in which attempt \<open>k\<close>, \<open>k + 1\<close>, ... fail as the list says, each failure but the
  last followed by the firing of the retry timer it scheduled.
\<close>

fun failing_trace :: "nat \<Rightarrow> failure list \<Rightarrow> event list" where
  "failing_trace k [] = []"
| "failing_trace k [f] = failure_events k f"
| "failing_trace k (f # fs) = failure_events k f @ RetryFire k # failing_trace (Suc k) fs"

text \<open>A socket after its close handler has run, and the timers of \<open>k\<close> retries gone by.\<close>

definition closedSocket :: socket where
  "closedSocket = \<lparr>readyState = WS_CLOSED, listeners = False, connectionTimeoutId = False, sent = []\<rparr>"

definition ladder :: "options \<Rightarrow> nat \<Rightarrow> retry_timer list" where
  "ladder opts k = map (\<lambda>i. \<lparr>delay = retryDelay opts * 2 ^ i, pending = False\<rparr>) [0..<k]"

text \<open>The hook at the start of attempt \<open>k\<close> of such a run (attempt 0 is the mount).\<close>

definition rung :: "options \<Rightarrow> nat \<Rightarrow> hook \<Rightarrow> bool" where
  "rung opts k h \<longleftrightarrow>
     sockets h = replicate k closedSocket @ [newWebSocket] \<and> webSocketRef h = Some k \<and>
     retriesRef h = k \<and> timers h = ladder opts k"

subsection \<open>Handles\<close>

text \<open>The hook at the point where \<open>reconnect\<close> calls the stored \<open>connect\<close>.\<close>

definition before_connect :: "hook \<Rightarrow> hook" where
  "before_connect h =
     (clearTimeout (retryTimeoutRef h)
        ((case webSocketRef h of None \<Rightarrow> h | Some c \<Rightarrow> upd_socket c ws_close h)
           \<lparr>retriesRef := 0\<rparr>))\<lparr>error := None\<rparr>"

text \<open>
  A handle that is connecting or open, and the property that only the handle in
  \<open>webSocketRef\<close> is.
\<close>

definition active :: "socket \<Rightarrow> bool" where
  "active ws \<longleftrightarrow> readyState ws = WS_CONNECTING \<or> readyState ws = WS_OPEN"

definition one_active :: "hook \<Rightarrow> bool" where
  "one_active h \<longleftrightarrow>
     (\<forall>s < length (sockets h). active (sockets h ! s) \<longrightarrow> webSocketRef h = Some s)"

section \<open>Basic facts about the model\<close>

lemma newWebSocket_fields [simp]:
  "readyState newWebSocket = WS_CONNECTING"
  "listeners newWebSocket"
  "connectionTimeoutId newWebSocket"
  "sent newWebSocket = []"
  by (simp_all add: newWebSocket_def)

lemma upd_socket_fields [simp]:
  "state (upd_socket s f h) = state h"
  "lastMessage (upd_socket s f h) = lastMessage h"
  "error (upd_socket s f h) = error h"
  "webSocketRef (upd_socket s f h) = webSocketRef h"
  "retriesRef (upd_socket s f h) = retriesRef h"
  "retryTimeoutRef (upd_socket s f h) = retryTimeoutRef h"
  "messageQueueRef (upd_socket s f h) = messageQueueRef h"
  "timers (upd_socket s f h) = timers h"
  "callbacks (upd_socket s f h) = callbacks h"
  "length (sockets (upd_socket s f h)) = length (sockets h)"
  by (simp_all add: upd_socket_def)

lemma upd_socket_nth:
  "sockets (upd_socket s f h) ! i =
     (if i = s \<and> s < length (sockets h) then f (sockets h ! s) else sockets h ! i)"
  by (simp add: upd_socket_def)

lemma clearTimeout_fields [simp]:
  "state (clearTimeout r h) = state h"
  "lastMessage (clearTimeout r h) = lastMessage h"
  "error (clearTimeout r h) = error h"
  "webSocketRef (clearTimeout r h) = webSocketRef h"
  "retriesRef (clearTimeout r h) = retriesRef h"
  "retryTimeoutRef (clearTimeout r h) = retryTimeoutRef h"
  "messageQueueRef (clearTimeout r h) = messageQueueRef h"
  "sockets (clearTimeout r h) = sockets h"
  "callbacks (clearTimeout r h) = callbacks h"
  "length (timers (clearTimeout r h)) = length (timers h)"
  by (simp_all add: clearTimeout_def split: option.splits)

lemma setRetryTimeout_fields [simp]:
  "state (setRetryTimeout d h) = state h"
  "lastMessage (setRetryTimeout d h) = lastMessage h"
  "error (setRetryTimeout d h) = error h"
  "webSocketRef (setRetryTimeout d h) = webSocketRef h"
  "retriesRef (setRetryTimeout d h) = retriesRef h"
  "retryTimeoutRef (setRetryTimeout d h) = Some (length (timers h))"
  "messageQueueRef (setRetryTimeout d h) = messageQueueRef h"
  "sockets (setRetryTimeout d h) = sockets h"
  "callbacks (setRetryTimeout d h) = callbacks h"
  "timers (setRetryTimeout d h) = timers h @ [\<lparr>delay = d, pending = True\<rparr>]"
  by (simp_all add: setRetryTimeout_def)

lemma ws_close_not_open: "readyState (ws_close ws) = WS_OPEN \<longleftrightarrow> False"
  by (simp add: ws_close_def)

lemma connect_queue [simp]: "messageQueueRef (connect opts h) = messageQueueRef h"
  by (simp add: connect_def Let_def split: option.splits)

lemma handleClose_queue [simp]: "messageQueueRef (handleClose opts s h) = messageQueueRef h"
  by (simp add: handleClose_def Let_def)

lemma handleError_queue [simp]: "messageQueueRef (handleError s h) = messageQueueRef h"
  by (simp add: handleError_def Let_def)

lemma handleMessage_queue [simp]: "messageQueueRef (handleMessage d h) = messageQueueRef h"
  by (simp add: handleMessage_def split: inbound.splits)

lemma reconnect_queue [simp]: "messageQueueRef (reconnect opts h) = messageQueueRef h"
  by (simp add: reconnect_def Let_def split: option.splits)

lemma cleanup_queue [simp]: "messageQueueRef (cleanup h) = messageQueueRef h"
  by (simp add: cleanup_def Let_def split: option.splits)

lemma sendMessage_queues:
  "currentReadyState h \<noteq> Some WS_OPEN \<Longrightarrow>
   sendMessage m h = h\<lparr>messageQueueRef := messageQueueRef h @ [m]\<rparr>"
  by (simp add: sendMessage_def)

lemma fire_queue:
  "\<lbrakk>no_open [ev]; currentReadyState h \<noteq> Some WS_OPEN\<rbrakk>
   \<Longrightarrow> messageQueueRef (fire opts ev h) = messageQueueRef h @ sends [ev]"
  by (cases ev) (simp_all add: sendMessage_queues connectionTimeout_def Let_def)

text \<open>The current handle not being open is preserved by everything but an open event.\<close>

lemma crs_upd_socket:
  "currentReadyState (upd_socket s f h) =
     (case webSocketRef h of None \<Rightarrow> None
      | Some c \<Rightarrow> if c < length (sockets h)
          then Some (readyState (if c = s then f (sockets h ! c) else sockets h ! c)) else None)"
  by (simp add: currentReadyState_def upd_socket_nth split: option.splits)

lemma crs_updates [simp]:
  "currentReadyState (h\<lparr>state := a\<rparr>) = currentReadyState h"
  "currentReadyState (h\<lparr>lastMessage := b\<rparr>) = currentReadyState h"
  "currentReadyState (h\<lparr>error := c\<rparr>) = currentReadyState h"
  "currentReadyState (h\<lparr>retriesRef := d\<rparr>) = currentReadyState h"
  "currentReadyState (h\<lparr>retryTimeoutRef := e\<rparr>) = currentReadyState h"
  "currentReadyState (h\<lparr>messageQueueRef := f\<rparr>) = currentReadyState h"
  "currentReadyState (h\<lparr>timers := g\<rparr>) = currentReadyState h"
  "currentReadyState (h\<lparr>callbacks := i\<rparr>) = currentReadyState h"
  by (auto simp: currentReadyState_def split: option.splits)

lemma crs_clearTimeout [simp]: "currentReadyState (clearTimeout r h) = currentReadyState h"
  by (simp add: currentReadyState_def split: option.splits)

lemma crs_connect: "currentReadyState h \<noteq> Some WS_OPEN \<Longrightarrow> currentReadyState (connect opts h) \<noteq> Some WS_OPEN"
  by (auto simp: connect_def Let_def currentReadyState_def upd_socket_def ws_close_def nth_append nth_list_update
      split: option.splits if_splits)

lemma crs_handleClose [simp]: "currentReadyState (handleClose opts s h) = currentReadyState h"
  by (simp add: handleClose_def Let_def currentReadyState_def upd_socket_nth split: option.splits)

lemma crs_handleError [simp]: "currentReadyState (handleError s h) = currentReadyState h"
  by (simp add: handleError_def Let_def currentReadyState_def upd_socket_nth split: option.splits)

lemma crs_handleMessage [simp]: "currentReadyState (handleMessage d h) = currentReadyState h"
  by (simp add: handleMessage_def currentReadyState_def split: inbound.splits option.splits)

lemma crs_upd_not_open:
  "\<lbrakk>currentReadyState h \<noteq> Some WS_OPEN; \<And>ws. readyState (f ws) \<noteq> WS_OPEN\<rbrakk>
   \<Longrightarrow> currentReadyState (upd_socket s f h) \<noteq> Some WS_OPEN"
  by (auto simp: currentReadyState_def upd_socket_nth split: option.splits if_splits)

lemma crs_upd_keep:
  "(\<And>ws. readyState (f ws) = readyState ws)
   \<Longrightarrow> currentReadyState (upd_socket s f h) = currentReadyState h"
  by (auto simp: currentReadyState_def upd_socket_nth split: option.splits if_splits)

lemma crs_reconnect: "currentReadyState (reconnect opts h) \<noteq> Some WS_OPEN"
  unfolding reconnect_def Let_def
  by (rule crs_connect) (auto simp: currentReadyState_def upd_socket_nth ws_close_def split: option.splits)

lemma crs_cleanup: "currentReadyState (cleanup h) \<noteq> Some WS_OPEN"
  unfolding cleanup_def Let_def
  by (auto simp: currentReadyState_def upd_socket_nth ws_close_def split: option.splits)

lemma fire_not_open:
  "\<lbrakk>no_open [ev]; currentReadyState h \<noteq> Some WS_OPEN\<rbrakk>
   \<Longrightarrow> currentReadyState (fire opts ev h) \<noteq> Some WS_OPEN"
proof (cases ev)
  case (SockClose s)
  assume "currentReadyState h \<noteq> Some WS_OPEN"
  then have "currentReadyState (upd_socket s (\<lambda>ws. ws\<lparr>readyState := WS_CLOSED\<rparr>) h) \<noteq> Some WS_OPEN"
    by (rule crs_upd_not_open) simp
  then show ?thesis using SockClose by (simp add: Let_def)
next
  case (ConnTimeoutFire s)
  assume a: "currentReadyState h \<noteq> Some WS_OPEN"
  have b: "currentReadyState (upd_socket s (\<lambda>ws. ws\<lparr>connectionTimeoutId := False\<rparr>) h) \<noteq> Some WS_OPEN"
    using a by (simp add: crs_upd_keep)
  show ?thesis using ConnTimeoutFire b
    by (simp add: connectionTimeout_def crs_upd_not_open ws_close_not_open)
next
  case (RetryFire t)
  assume a: "currentReadyState h \<noteq> Some WS_OPEN"
  then show ?thesis using RetryFire crs_connect by simp
next
  case (Send m)
  assume a: "currentReadyState h \<noteq> Some WS_OPEN"
  then show ?thesis using Send by (simp add: sendMessage_queues)
qed (simp_all add: crs_reconnect crs_cleanup)

lemma run_no_open:
  "\<lbrakk>run opts evs h = Some h1; no_open evs; currentReadyState h \<noteq> Some WS_OPEN\<rbrakk>
   \<Longrightarrow> messageQueueRef h1 = messageQueueRef h @ sends evs \<and> currentReadyState h1 \<noteq> Some WS_OPEN"
proof (induction evs arbitrary: h)
  case Nil
  then show ?case by simp
next
  case (Cons ev evs)
  from Cons.prems(2) have n: "no_open [ev]" "no_open evs" by (cases ev; simp)+
  from Cons.prems(1) have en: "enabled ev h" and r: "run opts evs (fire opts ev h) = Some h1"
    by (auto simp: step_def split: if_splits)
  have q: "messageQueueRef (fire opts ev h) = messageQueueRef h @ sends [ev]"
    using n(1) Cons.prems(3) by (rule fire_queue)
  have c: "currentReadyState (fire opts ev h) \<noteq> Some WS_OPEN"
    using n(1) Cons.prems(3) by (rule fire_not_open)
  have s: "sends (ev # evs) = sends [ev] @ sends evs" by (cases ev) simp_all
  from Cons.IH[OF r n(2) c] q s show ?case by simp
qed


lemma drain_fst: "fst (drain rs i q out) = []"
  by (induction q arbitrary: i out) simp_all

lemma drain_snd_cut:
  "\<lbrakk>\<forall>j. i + k \<le> j \<longrightarrow> rs j \<noteq> WS_OPEN; \<forall>j. i \<le> j \<and> j < i + k \<longrightarrow> rs j = WS_OPEN\<rbrakk>
   \<Longrightarrow> snd (drain rs i q out) = out @ filter (\<lambda>m. m \<noteq> Undefined) (take k q)"
proof (induction q arbitrary: i k out)
  case Nil
  then show ?case by simp
next
  case (Cons msg q)
  show ?case
  proof (cases k)
    case 0
    with Cons.prems have "rs i \<noteq> WS_OPEN" by simp
    moreover have "snd (drain rs (Suc i) q out) = out @ filter (\<lambda>m. m \<noteq> Undefined) (take 0 q)"
      using Cons.prems 0 by (intro Cons.IH) auto
    ultimately show ?thesis using 0 by simp
  next
    case (Suc k')
    with Cons.prems have o: "rs i = WS_OPEN" by simp
    have "snd (drain rs (Suc i) q (if msg \<noteq> Undefined then out @ [msg] else out))
        = (if msg \<noteq> Undefined then out @ [msg] else out) @ filter (\<lambda>m. m \<noteq> Undefined) (take k' q)"
      using Cons.prems Suc by (intro Cons.IH) auto
    then show ?thesis using Suc o by simp
  qed
qed

lemma drain_open: "drain (\<lambda>i. WS_OPEN) i q out = ([], out @ filter (\<lambda>m. m \<noteq> Undefined) q)"
  by (induction q arbitrary: i out) simp_all

lemma filter_defined: "Undefined \<notin> set q \<Longrightarrow> filter (\<lambda>m. m \<noteq> Undefined) q = q"
  by (induction q) auto

lemma handleOpen_fields:
  assumes "s < length (sockets h)"
  shows "messageQueueRef (handleOpen rs s h) = []"
    and "sent (sockets (handleOpen rs s h) ! s) = snd (drain rs 0 (messageQueueRef h) (sent (sockets h ! s)))"
    and "readyState (sockets (handleOpen rs s h) ! s) = readyState (sockets h ! s)"
    and "error (handleOpen rs s h) = None"
    and "callbacks (handleOpen rs s h) = callbacks h @ [OnConnect]"
    and "webSocketRef (handleOpen rs s h) = webSocketRef h"
    and "length (sockets (handleOpen rs s h)) = length (sockets h)"
    and "retriesRef (handleOpen rs s h) = 0"
    and "state (handleOpen rs s h) = OPEN"
  using assms
  by (simp_all add: handleOpen_def Let_def case_prod_beta drain_fst upd_socket_nth)

lemma fire_open:
  assumes "enabled (SockOpen s) h" "listeners (sockets h ! s)"
  shows "messageQueueRef (fire opts (SockOpen s) h) = []"
    and "sent (sockets (fire opts (SockOpen s) h) ! s)
           = sent (sockets h ! s) @ filter (\<lambda>m. m \<noteq> Undefined) (messageQueueRef h)"
    and "readyState (sockets (fire opts (SockOpen s) h) ! s) = WS_OPEN"
    and "webSocketRef (fire opts (SockOpen s) h) = webSocketRef h"
    and "length (sockets (fire opts (SockOpen s) h)) = length (sockets h)"
  using assms
  by (simp_all add: Let_def upd_socket_nth handleOpen_fields drain_open)

section \<open>The backoff ladder\<close>

lemma run_append:
  "run opts (as @ bs) h = (case run opts as h of None \<Rightarrow> None | Some h' \<Rightarrow> run opts bs h')"
  by (induction as arbitrary: h) (simp_all split: option.splits)

lemma ladder_Suc: "ladder opts (Suc k) = ladder opts k @ [\<lparr>delay = retryDelay opts * 2 ^ k, pending = False\<rparr>]"
  by (simp add: ladder_def)

lemma length_ladder [simp]: "length (ladder opts k) = k"
  by (simp add: ladder_def)

lemma update_last: "length xs = k \<Longrightarrow> (xs @ [y])[k := z] = xs @ [z]"
  by (simp add: list_update_append)

lemma rung_mount: "url_ok opts \<Longrightarrow> rung opts 0 (mount opts)"
  by (simp add: rung_def mount_def connect_def initial_def currentReadyState_def ladder_def Let_def)

lemma rung_Suc:
  "rung opts (Suc k) h \<longleftrightarrow>
     sockets h = replicate k closedSocket @ [closedSocket, newWebSocket] \<and>
     webSocketRef h = Some (Suc k) \<and> retriesRef h = Suc k \<and>
     timers h = ladder opts k @ [\<lparr>delay = retryDelay opts * 2 ^ k, pending = False\<rparr>]"
  by (simp add: rung_def ladder_Suc replicate_app_Cons_same)

lemma attempt_fails:
  assumes "rung opts k h" "url_ok opts" "shouldReconnect opts" "k < maxRetries opts"
  shows "\<exists>h'. run opts (failure_events k f @ [RetryFire k]) h = Some h' \<and> rung opts (Suc k) h'"
  unfolding rung_Suc using assms
  by (cases f)
    (simp_all add: rung_def step_def upd_socket_def connectionTimeout_def ws_close_def
      handleError_def handleClose_def setRetryTimeout_def connect_def currentReadyState_def
      Let_def nth_append update_last closedSocket_def newWebSocket_def)

lemma last_attempt_fails:
  assumes "rung opts k h" "shouldReconnect opts" "maxRetries opts \<le> k"
  shows "\<exists>h'. run opts (failure_events k f) h = Some h' \<and>
     sockets h' = replicate k closedSocket @ [closedSocket] \<and> timers h' = ladder opts k \<and>
     error h' = Some RetriesExhausted \<and> state h' = CLOSED \<and> retriesRef h' = k \<and>
     callbacks h' = callbacks h @ (if f \<in> {Refused, TimedOut} then [OnError ConnectionFailed] else [])
        @ [OnDisconnect, OnError RetriesExhausted]"
  using assms
  by (cases f)
    (simp_all add: rung_def step_def upd_socket_def connectionTimeout_def ws_close_def
      handleError_def handleClose_def setRetryTimeout_def currentReadyState_def
      Let_def nth_append update_last closedSocket_def newWebSocket_def)


lemma failing_trace_Cons:
  "fs \<noteq> [] \<Longrightarrow> failing_trace k (f # fs) = (failure_events k f @ [RetryFire k]) @ failing_trace (Suc k) fs"
  by (cases fs) simp_all

lemma ladder_run:
  assumes "url_ok opts" "shouldReconnect opts"
  shows "\<lbrakk>rung opts k h; k + length fs = maxRetries opts + 1; fs \<noteq> []\<rbrakk>
    \<Longrightarrow> \<exists>h'. run opts (failing_trace k fs) h = Some h' \<and>
          sockets h' = replicate (maxRetries opts + 1) closedSocket \<and>
          timers h' = ladder opts (maxRetries opts) \<and>
          error h' = Some RetriesExhausted \<and> state h' = CLOSED \<and>
          retriesRef h' = maxRetries opts"
proof (induction fs arbitrary: k h)
  case Nil
  then show ?case by simp
next
  case (Cons f fs)
  show ?case
  proof (cases "fs = []")
    case True
    with Cons.prems have k: "k = maxRetries opts" by simp
    from last_attempt_fails[OF Cons.prems(1) assms(2), of f] k True
    show ?thesis by (auto simp: replicate_append_same)
  next
    case False
    with Cons.prems have k: "k < maxRetries opts" by (cases fs) simp_all
    from attempt_fails[OF Cons.prems(1) assms k, of f]
    obtain h1 where r: "run opts (failure_events k f @ [RetryFire k]) h = Some h1"
      and g: "rung opts (Suc k) h1" by blast
    from Cons.prems have "Suc k + length fs = maxRetries opts + 1" by simp
    moreover have "run opts (failing_trace k (f # fs)) h = run opts (failing_trace (Suc k) fs) h1"
      unfolding failing_trace_Cons[OF False]
        run_append[of opts "failure_events k f @ [RetryFire k]"] r
      by simp
    ultimately show ?thesis using Cons.IH[OF g _ False] by simp
  qed
qed

text \<open>
  Claim C1. With \<open>shouldReconnect\<close> set and \<open>maxRetries = N\<close>, let the first attempt and
  every retry fail, each in any of the four ways. Then the run goes through: after the
  \<open>k\<close>-th failure exactly one retry timer is scheduled, the \<open>k\<close>-th one (counted from 1) with
  delay \<open>retryDelay * 2 ^ (k - 1)\<close>, and it fires into a new attempt. In the end \<open>N\<close> timers
  have been created, none is pending, every socket is closed with its listeners and its
  connection timer gone, and the failure of the \<open>N\<close>-th retry has set the retries-exhausted
  error.
\<close>

theorem backoff_ladder:
  assumes "url_ok opts" and "shouldReconnect opts" and "length fs = maxRetries opts + 1"
  shows "\<exists>h. run opts (failing_trace 0 fs) (mount opts) = Some h
     \<and> map delay (timers h) = map (\<lambda>k. retryDelay opts * 2 ^ (k - 1)) [1..<maxRetries opts + 1]
     \<and> list_all (\<lambda>t. \<not> pending t) (timers h)
     \<and> error h = Some RetriesExhausted
     \<and> state h = CLOSED
     \<and> length (sockets h) = maxRetries opts + 1
     \<and> list_all (\<lambda>ws. readyState ws = WS_CLOSED \<and> \<not> listeners ws \<and> \<not> connectionTimeoutId ws) (sockets h)"
proof -
  from assms(3) have "fs \<noteq> []" by auto
  with ladder_run[OF assms(1,2) rung_mount[OF assms(1)], of fs] assms(3)
  obtain h where r: "run opts (failing_trace 0 fs) (mount opts) = Some h"
    and f: "sockets h = replicate (maxRetries opts + 1) closedSocket"
      "timers h = ladder opts (maxRetries opts)"
      "error h = Some RetriesExhausted" "state h = CLOSED"
    by auto
  have d: "map delay (ladder opts n) = map (\<lambda>k. retryDelay opts * 2 ^ (k - 1)) [1..<n + 1]" for n
    by (induction n) (simp_all add: ladder_def)
  have p: "list_all (\<lambda>t. \<not> pending t) (ladder opts n)" for n
    by (simp add: ladder_def list_all_iff)
  show ?thesis using r f d p by (simp add: list_all_iff closedSocket_def)
qed

theorem backoff_ladder_witness:
  "url_ok policy3 \<and> shouldReconnect policy3
   \<and> length [TimedOut, Refused, TimedOutSilently, Dropped] = maxRetries policy3 + 1
   \<and> (\<exists>h. run policy3 (failing_trace 0 [TimedOut, Refused, TimedOutSilently, Dropped]) (mount policy3) = Some h
        \<and> map delay (timers h) = [2000, 4000, 8000]
        \<and> error h = Some RetriesExhausted
        \<and> length (sockets h) = 4)"
proof -
  have a: "url_ok policy3" "shouldReconnect policy3"
    "length [TimedOut, Refused, TimedOutSilently, Dropped] = maxRetries policy3 + 1"
    by (simp_all add: policy3_def)
  have u: "[1..<maxRetries policy3 + 1] = [1, 2, 3]"
    by (simp add: policy3_def upt_rec)
  show ?thesis using backoff_ladder[OF a] a u by (auto simp: policy3_def)
qed


section \<open>The outbound queue\<close>

text \<open>
  Claim C10. In the drain loop of handleOpen every message is taken off the queue before
  the ready state is looked at. If the socket is seen open for the first \<open>k\<close> reads and
  not open from then on, the queue still ends empty, only the defined messages among the
  first \<open>k\<close> are handed to the transport, and the others are gone: they are not queued
  again, not sent, and no error is set or reported (the only callback is \<open>onConnect\<close>).
\<close>

theorem handleOpen_drain_discards:
  assumes "s < length (sockets h)"
    and "\<forall>j. k \<le> j \<longrightarrow> rs j \<noteq> WS_OPEN"
    and "\<forall>j. j < k \<longrightarrow> rs j = WS_OPEN"
  shows "messageQueueRef (handleOpen rs s h) = []
    \<and> sent (sockets (handleOpen rs s h) ! s)
        = sent (sockets h ! s) @ filter (\<lambda>m. m \<noteq> Undefined) (take k (messageQueueRef h))
    \<and> error (handleOpen rs s h) = None
    \<and> callbacks (handleOpen rs s h) = callbacks h @ [OnConnect]"
proof -
  have "snd (drain rs 0 (messageQueueRef h) (sent (sockets h ! s)))
      = sent (sockets h ! s) @ filter (\<lambda>m. m \<noteq> Undefined) (take k (messageQueueRef h))"
    using assms(2,3) by (intro drain_snd_cut) auto
  then show ?thesis using assms(1) by (simp add: handleOpen_fields)
qed

text \<open>
  Claim C5. \<open>sendMessage\<close> tests the ready state of the current handle. While that is
  not open, every call only appends the message to the queue: the hook's error, its
  callbacks and the sockets stay as they are, so no call fails. This holds along any trace
  in which no socket opens (closes, errors, timers, retries, manual reconnects in between).
  When a socket \<open>s\<close> then opens, the queue, which holds the old queue followed by the
  messages sent meanwhile in call order, is handed to the transport of \<open>s\<close> in exactly that
  order and the queue is empty; a message sent after that goes to the transport behind
  them. Messages are JSON payloads here: \<open>undefined\<close> is not one.
\<close>

theorem queued_messages_fifo:
  assumes "currentReadyState h \<noteq> Some WS_OPEN"
    and "no_open evs" and "run opts evs h = Some h1"
    and "enabled (SockOpen s) h1" and "listeners (sockets h1 ! s)" and "webSocketRef h1 = Some s"
    and "Undefined \<notin> set (messageQueueRef h @ sends evs)"
  shows "(\<forall>h' m. currentReadyState h' \<noteq> Some WS_OPEN \<longrightarrow>
            sendMessage m h' = h'\<lparr>messageQueueRef := messageQueueRef h' @ [m]\<rparr>)
    \<and> messageQueueRef h1 = messageQueueRef h @ sends evs
    \<and> sent (sockets (fire opts (SockOpen s) h1) ! s)
        = sent (sockets h1 ! s) @ messageQueueRef h @ sends evs
    \<and> messageQueueRef (fire opts (SockOpen s) h1) = []
    \<and> sent (sockets (sendMessage m' (fire opts (SockOpen s) h1)) ! s)
        = sent (sockets h1 ! s) @ messageQueueRef h @ sends evs @ [m']"
proof -
  let ?h2 = "fire opts (SockOpen s) h1"
  have q: "messageQueueRef h1 = messageQueueRef h @ sends evs"
    using run_no_open[OF assms(3,2,1)] by simp
  have d: "filter (\<lambda>m. m \<noteq> Undefined) (messageQueueRef h1) = messageQueueRef h @ sends evs"
    using q assms(7) filter_defined[of "messageQueueRef h1"] by simp
  have s2: "sent (sockets ?h2 ! s) = sent (sockets h1 ! s) @ messageQueueRef h @ sends evs"
    using fire_open(2)[OF assms(4,5)] d by simp
  have len: "s < length (sockets ?h2)"
    using assms(4) fire_open(5)[OF assms(4,5)] by simp
  have cur: "currentReadyState ?h2 = Some WS_OPEN"
    using fire_open(3,4)[OF assms(4,5)] assms(6) len by (simp add: currentReadyState_def)
  have "sent (sockets (sendMessage m' ?h2) ! s) = sent (sockets ?h2 ! s) @ [m']"
    using cur len fire_open(4)[OF assms(4,5)] assms(6)
    by (simp add: sendMessage_def upd_socket_nth)
  with s2 q fire_open(1)[OF assms(4,5)] show ?thesis
    by (simp add: sendMessage_queues)
qed

text \<open>
  Claim C9. \<open>reconnect\<close> does not touch the queue. Whatever happens after it short of a
  socket opening, the messages queued before the call are still there, in their order and
  before the ones sent meanwhile, and the next open event hands them to the transport in
  that order.
\<close>

theorem reconnect_keeps_queue:
  assumes "no_open evs" and "run opts evs (reconnect opts h) = Some h1"
    and "enabled (SockOpen s) h1" and "listeners (sockets h1 ! s)"
    and "Undefined \<notin> set (messageQueueRef h @ sends evs)"
  shows "messageQueueRef (reconnect opts h) = messageQueueRef h
    \<and> messageQueueRef h1 = messageQueueRef h @ sends evs
    \<and> sent (sockets (fire opts (SockOpen s) h1) ! s)
        = sent (sockets h1 ! s) @ messageQueueRef h @ sends evs"
proof -
  have q: "messageQueueRef h1 = messageQueueRef h @ sends evs"
    using run_no_open[OF assms(2,1) crs_reconnect] by simp
  have "filter (\<lambda>m. m \<noteq> Undefined) (messageQueueRef h1) = messageQueueRef h @ sends evs"
    using q assms(5) filter_defined[of "messageQueueRef h1"] by simp
  then show ?thesis using q fire_open(2)[OF assms(3,4)] by simp
qed

text \<open>The definitions a concrete run unfolds.\<close>

lemmas model_defs = mount_def connect_def newWebSocket_def initial_def currentReadyState_def step_def upd_socket_def
  ws_close_def clearTimeout_def setRetryTimeout_def handleOpen_def handleMessage_def handleError_def
  handleClose_def connectionTimeout_def sendMessage_def reconnect_def cleanup_def Let_def

theorem handleOpen_drain_discards_witness:
  "0 < length (sockets ((mount policy3)\<lparr>messageQueueRef := [Payload ''a'', Undefined, Payload ''b'', Payload ''c'']\<rparr>))
   \<and> messageQueueRef (handleOpen (\<lambda>j. if j < 3 then WS_OPEN else WS_CLOSING) 0
        ((mount policy3)\<lparr>messageQueueRef := [Payload ''a'', Undefined, Payload ''b'', Payload ''c'']\<rparr>)) = []
   \<and> sent (sockets (handleOpen (\<lambda>j. if j < 3 then WS_OPEN else WS_CLOSING) 0
        ((mount policy3)\<lparr>messageQueueRef := [Payload ''a'', Undefined, Payload ''b'', Payload ''c'']\<rparr>)) ! 0)
       = [Payload ''a'', Payload ''b'']
   \<and> error (handleOpen (\<lambda>j. if j < 3 then WS_OPEN else WS_CLOSING) 0
        ((mount policy3)\<lparr>messageQueueRef := [Payload ''a'', Undefined, Payload ''b'', Payload ''c'']\<rparr>)) = None"
  using handleOpen_drain_discards[of 0
      "(mount policy3)\<lparr>messageQueueRef := [Payload ''a'', Undefined, Payload ''b'', Payload ''c'']\<rparr>"
      3 "\<lambda>j. if j < 3 then WS_OPEN else WS_CLOSING"]
  by (simp add: mount_def connect_def initial_def currentReadyState_def policy3_def)

theorem queued_messages_fifo_witness:
  "\<exists>h1. run policy3 [Send (Payload ''a''), ConnTimeoutFire 0, SockError 0, SockClose 0,
                 Send (Payload ''b''), RetryFire 0] (mount policy3) = Some h1
     \<and> currentReadyState (mount policy3) \<noteq> Some WS_OPEN
     \<and> enabled (SockOpen 1) h1 \<and> listeners (sockets h1 ! 1) \<and> webSocketRef h1 = Some 1
     \<and> messageQueueRef h1 = [Payload ''a'', Payload ''b'']
     \<and> sent (sockets (sendMessage (Payload ''c'') (fire policy3 (SockOpen 1) h1)) ! 1)
         = [Payload ''a'', Payload ''b'', Payload ''c'']"
proof -
  let ?evs = "[Send (Payload ''a''), ConnTimeoutFire 0, SockError 0, SockClose 0,
                 Send (Payload ''b''), RetryFire 0]"
  obtain h1 where r: "run policy3 ?evs (mount policy3) = Some h1"
    and e: "enabled (SockOpen 1) h1" "listeners (sockets h1 ! 1)" "webSocketRef h1 = Some 1"
      "sent (sockets h1 ! 1) = []"
    by (simp add: model_defs policy3_def)
  have c: "currentReadyState (mount policy3) \<noteq> Some WS_OPEN"
    by (simp add: model_defs policy3_def)
  have u: "Undefined \<notin> set (messageQueueRef (mount policy3) @ sends ?evs)"
    by (simp add: model_defs policy3_def)
  have n: "no_open ?evs" by simp
  show ?thesis
    using queued_messages_fifo[OF c n r e(1,2,3) u, of "Payload ''c''"] r c e
    by (simp add: mount_def connect_def initial_def currentReadyState_def policy3_def)
qed



theorem reconnect_keeps_queue_witness:
  "\<exists>h1. run policy3 [SockError 0, SockClose 0, Send (Payload ''b'')]
            (reconnect policy3 (sendMessage (Payload ''a'') (mount policy3))) = Some h1
     \<and> enabled (SockOpen 1) h1 \<and> listeners (sockets h1 ! 1)
     \<and> messageQueueRef (reconnect policy3 (sendMessage (Payload ''a'') (mount policy3)))
         = [Payload ''a'']
     \<and> messageQueueRef h1 = [Payload ''a'', Payload ''b'']
     \<and> sent (sockets (fire policy3 (SockOpen 1) h1) ! 1) = [Payload ''a'', Payload ''b'']"
proof -
  let ?evs = "[SockError 0, SockClose 0, Send (Payload ''b'')]"
  let ?h = "sendMessage (Payload ''a'') (mount policy3)"
  obtain h1 where r: "run policy3 ?evs (reconnect policy3 ?h) = Some h1"
    and e: "enabled (SockOpen 1) h1" "listeners (sockets h1 ! 1)" "sent (sockets h1 ! 1) = []"
    by (simp add: model_defs policy3_def)
  have q: "messageQueueRef ?h = [Payload ''a'']"
    by (simp add: model_defs policy3_def)
  have u: "Undefined \<notin> set (messageQueueRef ?h @ sends ?evs)"
    using q by simp
  have n: "no_open ?evs" by simp
  show ?thesis
    using reconnect_keeps_queue[OF n r e(1,2) u] r e q by simp
qed

section \<open>Teardown\<close>

text \<open>
  Claim C2. After the unmount cleanup no automatic reconnection should occur. The cleanup
  clears the timer in \<open>retryTimeoutRef\<close> and calls \<open>close()\<close> on the current handle, but the
  handle keeps its listeners. In the run below the socket opens, the component unmounts,
  and the close event that the cleanup's own \<open>close()\<close> causes runs handleClose, which
  schedules retry 1 (2000 ms); when that timer fires, \<open>connect\<close> creates a second
  WebSocket, after the unmount.
\<close>

theorem cleanup_close_reconnects:
  "run policy3 [SockOpen 0, Unmount, SockClose 0, RetryFire 0] (mount policy3) =
     Some \<lparr>state = CONNECTING, lastMessage = None, error = None, webSocketRef = Some 1,
       retriesRef = 1, retryTimeoutRef = Some 0, messageQueueRef = [],
       sockets = [closedSocket, newWebSocket],
       timers = [\<lparr>delay = 2000, pending = False\<rparr>],
       callbacks = [OnConnect, OnDisconnect]\<rparr>"
  by (simp add: model_defs policy3_def closedSocket_def)

section \<open>Starting an attempt\<close>

text \<open>
  Claim C7, as the code has it. \<open>connect\<close> returns at once only when the current handle's
  ready state is OPEN. In every other case, a connecting handle included, it calls
  \<open>close()\<close> on the current handle (which changes nothing on a closed one), sets the state
  to CONNECTING and, when the constructor returns, makes a new WebSocket the current
  handle.
\<close>

theorem connect_guard:
  "(currentReadyState h = Some WS_OPEN \<longrightarrow> connect opts h = h)
   \<and> (currentReadyState h \<noteq> Some WS_OPEN \<and> url_ok opts \<longrightarrow>
        state (connect opts h) = CONNECTING
      \<and> webSocketRef (connect opts h) = Some (length (sockets h))
      \<and> length (sockets (connect opts h)) = length (sockets h) + 1
      \<and> sockets (connect opts h) ! length (sockets h) = newWebSocket
      \<and> (\<forall>c. webSocketRef h = Some c \<and> c < length (sockets h) \<longrightarrow>
            sockets (connect opts h) ! c = ws_close (sockets h ! c)))"
  by (auto simp: connect_def Let_def currentReadyState_def upd_socket_def nth_append ws_close_def
      split: option.splits)

text \<open>
  The claim fails for a connecting handle. In the run below the consumer calls
  \<open>reconnect\<close> during the first attempt, both sockets then fail, and two retry timers are
  pending. The first one starts attempt 2 (state CONNECTING, socket 2 connecting); when
  the second fires, \<open>connect\<close> runs in that state: it closes socket 2 and opens socket 3.
\<close>

theorem connect_while_connecting_counterexample:
  "run policy3 [Reconnect, SockClose 0, SockClose 1, RetryFire 0] (mount policy3) =
     Some \<lparr>state = CONNECTING, lastMessage = None, error = None, webSocketRef = Some 2,
       retriesRef = 2, retryTimeoutRef = Some 1, messageQueueRef = [],
       sockets = [closedSocket, closedSocket, newWebSocket],
       timers = [\<lparr>delay = 2000, pending = False\<rparr>, \<lparr>delay = 4000, pending = True\<rparr>],
       callbacks = [OnDisconnect, OnDisconnect]\<rparr>
   \<and> run policy3 [Reconnect, SockClose 0, SockClose 1, RetryFire 0, RetryFire 1] (mount policy3) =
     Some \<lparr>state = CONNECTING, lastMessage = None, error = None, webSocketRef = Some 3,
       retriesRef = 2, retryTimeoutRef = Some 1, messageQueueRef = [],
       sockets = [closedSocket, closedSocket, newWebSocket\<lparr>readyState := WS_CLOSING\<rparr>,
                  newWebSocket],
       timers = [\<lparr>delay = 2000, pending = False\<rparr>, \<lparr>delay = 4000, pending = False\<rparr>],
       callbacks = [OnDisconnect, OnDisconnect]\<rparr>"
  by (simp add: model_defs policy3_def closedSocket_def)

theorem connect_guard_witness:
  "currentReadyState (fire policy3 (SockOpen 0) (mount policy3)) = Some WS_OPEN
   \<and> connect policy3 (fire policy3 (SockOpen 0) (mount policy3))
       = fire policy3 (SockOpen 0) (mount policy3)
   \<and> currentReadyState (mount policy3) \<noteq> Some WS_OPEN \<and> url_ok policy3
   \<and> webSocketRef (connect policy3 (mount policy3)) = Some 1
   \<and> length (sockets (connect policy3 (mount policy3))) = 2
   \<and> sockets (connect policy3 (mount policy3)) ! 0 = newWebSocket\<lparr>readyState := WS_CLOSING\<rparr>"
proof -
  have a: "currentReadyState (fire policy3 (SockOpen 0) (mount policy3)) = Some WS_OPEN"
    by (simp add: model_defs policy3_def)
  have b: "currentReadyState (mount policy3) \<noteq> Some WS_OPEN" "url_ok policy3"
    "webSocketRef (mount policy3) = Some 0" "length (sockets (mount policy3)) = 1"
    "ws_close (sockets (mount policy3) ! 0) = newWebSocket\<lparr>readyState := WS_CLOSING\<rparr>"
    by (simp_all add: model_defs policy3_def)
  show ?thesis
    using connect_guard[of "fire policy3 (SockOpen 0) (mount policy3)" policy3]
      connect_guard[of "mount policy3" policy3] a b
    by simp
qed

section \<open>Timeouts and errors\<close>

text \<open>
  Claim C6. When the 5 second timer fires on a connecting socket, a timeout error should
  be recorded. The timer's callback only calls \<open>ws.close()\<close> (and logs a warning): after
  it the error is still unset and no callback has been called.
\<close>

theorem timeout_sets_no_error:
  "run policy3 [ConnTimeoutFire 0] (mount policy3) =
     Some \<lparr>state = CONNECTING, lastMessage = None, error = None, webSocketRef = Some 0,
       retriesRef = 0, retryTimeoutRef = None, messageQueueRef = [],
       sockets = [\<lparr>readyState = WS_CLOSING, listeners = True, connectionTimeoutId = False, sent = []\<rparr>],
       timers = [], callbacks = []\<rparr>"
  by (simp add: model_defs policy3_def)

text \<open>
  The rest of that claim holds. The timer's callback changes nothing but the socket, which
  is now closing. Whether or not an error event comes in between, the close event that
  follows leaves the hook exactly as the same events would without the timeout; the
  close handler runs once, schedules at most the one retry of the backoff rule, and after
  it the socket has no listeners and can deliver no further event.
\<close>

theorem connection_timeout_one_close_cycle:
  assumes "s < length (sockets h)" and "readyState (sockets h ! s) = WS_CONNECTING"
    and "connectionTimeoutId (sockets h ! s)" and "listeners (sockets h ! s)"
  shows "fire opts (ConnTimeoutFire s) h
       = upd_socket s (\<lambda>ws. ws\<lparr>connectionTimeoutId := False, readyState := WS_CLOSING\<rparr>) h
    \<and> error (fire opts (ConnTimeoutFire s) h) = error h
    \<and> callbacks (fire opts (ConnTimeoutFire s) h) = callbacks h
    \<and> (\<exists>h'. run opts (ConnTimeoutFire s # (if b then [SockError s] else []) @ [SockClose s]) h = Some h'
        \<and> run opts ((if b then [SockError s] else []) @ [SockClose s]) h = Some h'
        \<and> timers h' = timers h @
            (if shouldReconnect opts \<and> retriesRef h < maxRetries opts
             then [\<lparr>delay = retryDelay opts * 2 ^ retriesRef h, pending = True\<rparr>] else [])
        \<and> callbacks h' = callbacks h @ (if b then [OnError ConnectionFailed] else []) @ [OnDisconnect]
            @ (if shouldReconnect opts \<and> \<not> retriesRef h < maxRetries opts
               then [OnError RetriesExhausted] else [])
        \<and> \<not> enabled (SockClose s) h' \<and> \<not> enabled (SockError s) h'
        \<and> \<not> enabled (ConnTimeoutFire s) h' \<and> \<not> enabled (SockOpen s) h'
        \<and> \<not> listeners (sockets h' ! s))"
  using assms
  by (simp add: step_def upd_socket_def handleError_def handleClose_def setRetryTimeout_def
      connectionTimeout_def ws_close_def Let_def)

theorem connection_timeout_one_close_cycle_witness:
  "0 < length (sockets (mount policy3))
   \<and> readyState (sockets (mount policy3) ! 0) = WS_CONNECTING
   \<and> connectionTimeoutId (sockets (mount policy3) ! 0)
   \<and> listeners (sockets (mount policy3) ! 0)
   \<and> error (fire policy3 (ConnTimeoutFire 0) (mount policy3)) = None
   \<and> (\<exists>h'. run policy3 [ConnTimeoutFire 0, SockError 0, SockClose 0] (mount policy3) = Some h'
        \<and> timers h' = [\<lparr>delay = 2000, pending = True\<rparr>]
        \<and> callbacks h' = [OnError ConnectionFailed, OnDisconnect]
        \<and> \<not> enabled (SockClose 0) h')"
proof -
  have a: "0 < length (sockets (mount policy3))"
    "readyState (sockets (mount policy3) ! 0) = WS_CONNECTING"
    "connectionTimeoutId (sockets (mount policy3) ! 0)"
    "listeners (sockets (mount policy3) ! 0)"
    by (simp_all add: model_defs policy3_def)
  have b: "error (mount policy3) = None" "timers (mount policy3) = []"
    "callbacks (mount policy3) = []" "retriesRef (mount policy3) = 0"
    by (simp_all add: model_defs policy3_def)
  show ?thesis
    using connection_timeout_one_close_cycle[OF a, of policy3 True] a b
    by (auto simp: policy3_def)
qed

text \<open>
  Claim C8, as the code has it. An error event of a socket sets the connection-failed
  error and calls \<open>onError\<close>; it schedules nothing and leaves the retry counter alone, and
  the close event that follows takes the backoff decision. A constructor that throws is
  caught: the error is set, \<open>onError\<close> is called and the state is CLOSED, but no socket
  exists, the close handler does not run and no retry is scheduled.
\<close>

theorem errors_recorded:
  "(s < length (sockets h) \<and> listeners (sockets h ! s) \<longrightarrow>
      error (fire opts (SockError s) h) = Some ConnectionFailed
    \<and> callbacks (fire opts (SockError s) h) = callbacks h @ [OnError ConnectionFailed]
    \<and> timers (fire opts (SockError s) h) = timers h
    \<and> retriesRef (fire opts (SockError s) h) = retriesRef h
    \<and> state (fire opts (SockError s) h) = state h
    \<and> enabled (SockClose s) (fire opts (SockError s) h) = enabled (SockClose s) h
    \<and> timers (fire opts (SockClose s) (fire opts (SockError s) h)) = timers h @
          (if shouldReconnect opts \<and> retriesRef h < maxRetries opts
           then [\<lparr>delay = retryDelay opts * 2 ^ retriesRef h, pending = True\<rparr>] else []))
   \<and> (\<not> url_ok opts \<and> currentReadyState h \<noteq> Some WS_OPEN \<longrightarrow>
      error (connect opts h) = Some CreationError
    \<and> callbacks (connect opts h) = callbacks h @ [OnError CreationError]
    \<and> state (connect opts h) = CLOSED
    \<and> timers (connect opts h) = timers h
    \<and> retriesRef (connect opts h) = retriesRef h
    \<and> length (sockets (connect opts h)) = length (sockets h)
    \<and> webSocketRef (connect opts h) = webSocketRef h)"
  by (auto simp: upd_socket_def handleError_def handleClose_def setRetryTimeout_def connect_def Let_def
      split: option.splits)

text \<open>
  The claim fails for a constructor that throws: with retries allowed and none used, the
  mount ends with the creation error, no socket and no timer, so nothing will retry.
\<close>

theorem creation_failure_counterexample:
  "mount bad_url =
     \<lparr>state = CLOSED, lastMessage = None, error = Some CreationError, webSocketRef = None,
       retriesRef = 0, retryTimeoutRef = None, messageQueueRef = [], sockets = [],
       timers = [], callbacks = [OnError CreationError]\<rparr>
   \<and> shouldReconnect bad_url \<and> retriesRef (mount bad_url) < maxRetries bad_url"
  by (simp add: model_defs bad_url_def)

theorem errors_recorded_witness:
  "0 < length (sockets (mount policy3)) \<and> listeners (sockets (mount policy3) ! 0)
   \<and> error (fire policy3 (SockError 0) (mount policy3)) = Some ConnectionFailed
   \<and> callbacks (fire policy3 (SockError 0) (mount policy3)) = [OnError ConnectionFailed]
   \<and> timers (fire policy3 (SockError 0) (mount policy3)) = []
   \<and> timers (fire policy3 (SockClose 0) (fire policy3 (SockError 0) (mount policy3)))
       = [\<lparr>delay = 2000, pending = True\<rparr>]
   \<and> \<not> url_ok bad_url \<and> currentReadyState initial \<noteq> Some WS_OPEN
   \<and> error (connect bad_url initial) = Some CreationError
   \<and> callbacks (connect bad_url initial) = [OnError CreationError]
   \<and> state (connect bad_url initial) = CLOSED
   \<and> timers (connect bad_url initial) = []"
proof -
  have a: "0 < length (sockets (mount policy3))" "listeners (sockets (mount policy3) ! 0)"
    "callbacks (mount policy3) = []" "timers (mount policy3) = []" "retriesRef (mount policy3) = 0"
    by (simp_all add: model_defs policy3_def)
  have b: "\<not> url_ok bad_url" "currentReadyState initial \<noteq> Some WS_OPEN"
    "callbacks initial = []" "timers initial = []"
    by (simp_all add: bad_url_def initial_def currentReadyState_def)
  show ?thesis
    using errors_recorded[of 0 "mount policy3" policy3]
      errors_recorded[of 0 initial bad_url] a b
    by (auto simp: policy3_def)
qed

section \<open>Manual reconnect and replaced handles\<close>

lemma ws_close_fields [simp]:
  "listeners (ws_close ws) = listeners ws"
  "connectionTimeoutId (ws_close ws) = connectionTimeoutId ws"
  "sent (ws_close ws) = sent ws"
  "readyState (ws_close ws) \<noteq> WS_CONNECTING"
  "readyState (ws_close ws) \<noteq> WS_OPEN"
  by (simp_all add: ws_close_def)

lemma connect_fields:
  assumes "url_ok opts" "currentReadyState h \<noteq> Some WS_OPEN"
  shows "retriesRef (connect opts h) = retriesRef h"
    and "error (connect opts h) = error h"
    and "timers (connect opts h) = timers h"
    and "state (connect opts h) = CONNECTING"
    and "webSocketRef (connect opts h) = Some (length (sockets h))"
    and "length (sockets (connect opts h)) = length (sockets h) + 1"
    and "sockets (connect opts h) ! length (sockets h) = newWebSocket"
    and "c < length (sockets h) \<Longrightarrow> sockets (connect opts h) ! c =
          (if webSocketRef h = Some c then ws_close (sockets h ! c) else sockets h ! c)"
  using assms
  by (auto simp: connect_def Let_def currentReadyState_def upd_socket_def nth_append ws_close_def
      nth_list_update split: option.splits)

lemma reconnect_unfold: "reconnect opts h = connect opts (before_connect h)"
  by (simp add: reconnect_def before_connect_def Let_def split: option.splits)

lemma before_connect_fields:
  "retriesRef (before_connect h) = 0"
  "error (before_connect h) = None"
  "webSocketRef (before_connect h) = webSocketRef h"
  "length (sockets (before_connect h)) = length (sockets h)"
  "length (timers (before_connect h)) = length (timers h)"
  "timers (before_connect h) = timers (clearTimeout (retryTimeoutRef h) h)"
  "c < length (sockets h) \<Longrightarrow> sockets (before_connect h) ! c =
      (if webSocketRef h = Some c then ws_close (sockets h ! c) else sockets h ! c)"
  by (simp_all add: before_connect_def upd_socket_nth clearTimeout_def split: option.splits)

lemma before_connect_not_open: "currentReadyState (before_connect h) \<noteq> Some WS_OPEN"
  by (auto simp: before_connect_def currentReadyState_def upd_socket_nth split: option.splits)

lemma clearTimeout_cancels:
  "t < length (timers h) \<Longrightarrow> \<not> pending (timers (clearTimeout (Some t) h) ! t)"
  by (simp add: clearTimeout_def)

lemma fire_close_schedules:
  assumes "s < length (sockets h)" "listeners (sockets h ! s)"
    "shouldReconnect opts" "retriesRef h < maxRetries opts"
  shows "retriesRef (fire opts (SockClose s) h) = retriesRef h + 1"
    and "timers (fire opts (SockClose s) h)
          = timers h @ [\<lparr>delay = retryDelay opts * 2 ^ retriesRef h, pending = True\<rparr>]"
  using assms by (simp_all add: Let_def upd_socket_nth handleClose_def)

text \<open>
  Claim C3. After \<open>reconnect\<close> the old handle's events should not reach the hook, and a
  failure of the fresh attempt should start the backoff ladder at retry 1. \<open>reconnect\<close>
  calls \<open>close()\<close> on the current handle and resets the counter, but it removes no
  listener. In the first run below the connection is open and the consumer calls
  \<open>reconnect\<close>: socket 0 is closing with its listeners attached, beside the fresh socket 1.
  In the second run the close event of socket 0 then runs handleClose, sets the state to
  CLOSED and takes retry 1 (2000 ms); when the fresh attempt on socket 1 fails, it is
  given retry 2 with 4000 ms, and two retry timers are pending.
\<close>

theorem reconnect_stale_close:
  "run policy3 [SockOpen 0, Reconnect] (mount policy3) =
     Some \<lparr>state = CONNECTING, lastMessage = None, error = None, webSocketRef = Some 1,
       retriesRef = 0, retryTimeoutRef = None, messageQueueRef = [],
       sockets = [\<lparr>readyState = WS_CLOSING, listeners = True, connectionTimeoutId = False, sent = []\<rparr>,
                  newWebSocket],
       timers = [], callbacks = [OnConnect]\<rparr>
   \<and> run policy3 [SockOpen 0, Reconnect, SockClose 0, SockClose 1] (mount policy3) =
     Some \<lparr>state = CLOSED, lastMessage = None, error = None, webSocketRef = Some 1,
       retriesRef = 2, retryTimeoutRef = Some 1, messageQueueRef = [],
       sockets = [closedSocket, closedSocket],
       timers = [\<lparr>delay = 2000, pending = True\<rparr>, \<lparr>delay = 4000, pending = True\<rparr>],
       callbacks = [OnConnect, OnDisconnect, OnDisconnect]\<rparr>"
  by (simp add: model_defs policy3_def closedSocket_def)

text \<open>
  What \<open>reconnect\<close> does do, in any state and with a url the constructor accepts: it
  resets the retry counter to 0, clears the error, cancels the timer that
  \<open>retryTimeoutRef\<close> refers to, calls \<open>close()\<close> on the current handle, which is closing or
  closed after that and keeps the listeners it had, and makes a new connecting WebSocket
  the current handle, with the state CONNECTING.
\<close>

theorem reconnect_restarts:
  assumes "url_ok opts"
  shows "retriesRef (reconnect opts h) = 0
    \<and> error (reconnect opts h) = None
    \<and> state (reconnect opts h) = CONNECTING
    \<and> (\<forall>t. retryTimeoutRef h = Some t \<and> t < length (timers h) \<longrightarrow>
          \<not> pending (timers (reconnect opts h) ! t))
    \<and> length (timers (reconnect opts h)) = length (timers h)
    \<and> webSocketRef (reconnect opts h) = Some (length (sockets h))
    \<and> length (sockets (reconnect opts h)) = length (sockets h) + 1
    \<and> sockets (reconnect opts h) ! length (sockets h) = newWebSocket
    \<and> (\<forall>c. webSocketRef h = Some c \<and> c < length (sockets h) \<longrightarrow>
          readyState (sockets (reconnect opts h) ! c) \<in> {WS_CLOSING, WS_CLOSED}
        \<and> listeners (sockets (reconnect opts h) ! c) = listeners (sockets h ! c))
    \<and> (shouldReconnect opts \<and> 0 < maxRetries opts \<longrightarrow>
          retriesRef (fire opts (SockClose (length (sockets h))) (reconnect opts h)) = 1
        \<and> timers (fire opts (SockClose (length (sockets h))) (reconnect opts h))
            = timers (reconnect opts h) @ [\<lparr>delay = retryDelay opts, pending = True\<rparr>])"
proof -
  let ?b = "before_connect h"
  let ?r = "reconnect opts h"
  note cf = connect_fields[OF assms before_connect_not_open[of h], folded reconnect_unfold]
  note bf = before_connect_fields[where h = h]
  have r0: "retriesRef ?r = 0" and e: "error ?r = None" and st: "state ?r = CONNECTING"
    using cf(1,2,4) bf(1,2) by simp_all
  have tm: "timers ?r = timers (clearTimeout (retryTimeoutRef h) h)"
    using cf(3) bf(6) by simp
  have ref: "webSocketRef ?r = Some (length (sockets h))"
    and len: "length (sockets ?r) = length (sockets h) + 1"
    and new: "sockets ?r ! length (sockets h) = newWebSocket"
    using cf(5,6,7) bf(4) by simp_all
  have old: "sockets ?r ! c = ws_close (ws_close (sockets h ! c))"
    if "webSocketRef h = Some c" "c < length (sockets h)" for c
    using cf(8)[of c] bf(3,4,7) that by simp
  have old': "readyState (sockets ?r ! c) \<in> {WS_CLOSING, WS_CLOSED}
      \<and> listeners (sockets ?r ! c) = listeners (sockets h ! c)"
    if "webSocketRef h = Some c" "c < length (sockets h)" for c
  proof -
    have "readyState (ws_close (ws_close (sockets h ! c))) \<noteq> WS_CONNECTING"
      "readyState (ws_close (ws_close (sockets h ! c))) \<noteq> WS_OPEN"
      by simp_all
    then have "readyState (ws_close (ws_close (sockets h ! c))) \<in> {WS_CLOSING, WS_CLOSED}"
      by (cases "readyState (ws_close (ws_close (sockets h ! c)))") simp_all
    then show ?thesis using old[OF that] by simp
  qed
  have cancel: "\<not> pending (timers ?r ! t)" if "retryTimeoutRef h = Some t" "t < length (timers h)" for t
    using tm that clearTimeout_cancels[of t h] by simp
  have sched: "retriesRef (fire opts (SockClose (length (sockets h))) ?r) = 1
      \<and> timers (fire opts (SockClose (length (sockets h))) ?r)
          = timers ?r @ [\<lparr>delay = retryDelay opts, pending = True\<rparr>]"
    if "shouldReconnect opts" "0 < maxRetries opts"
    using fire_close_schedules[of "length (sockets h)" ?r opts] len new r0 that by simp
  show ?thesis
    using r0 e st ref len new old' cancel sched tm by simp
qed

theorem reconnect_restarts_witness:
  "url_ok policy3 \<and> shouldReconnect policy3 \<and> 0 < maxRetries policy3
   \<and> retryTimeoutRef (fire policy3 (SockClose 0) (mount policy3)) = Some 0
   \<and> pending (timers (fire policy3 (SockClose 0) (mount policy3)) ! 0)
   \<and> retriesRef (fire policy3 (SockClose 0) (mount policy3)) = 1
   \<and> retriesRef (reconnect policy3 (fire policy3 (SockClose 0) (mount policy3))) = 0
   \<and> \<not> pending (timers (reconnect policy3 (fire policy3 (SockClose 0) (mount policy3))) ! 0)
   \<and> webSocketRef (reconnect policy3 (fire policy3 (SockClose 0) (mount policy3))) = Some 1
   \<and> timers (fire policy3 (SockClose 1)
         (reconnect policy3 (fire policy3 (SockClose 0) (mount policy3))))
       = [\<lparr>delay = 2000, pending = False\<rparr>, \<lparr>delay = 2000, pending = True\<rparr>]"
proof -
  let ?h = "fire policy3 (SockClose 0) (mount policy3)"
  have a: "url_ok policy3" "shouldReconnect policy3" "0 < maxRetries policy3"
    "retryDelay policy3 = 2000"
    by (simp_all add: policy3_def)
  have b: "retryTimeoutRef ?h = Some 0" "pending (timers ?h ! 0)" "retriesRef ?h = 1"
    "length (timers ?h) = 1" "length (sockets ?h) = 1"
    by (simp_all add: model_defs policy3_def)
  have c: "timers (reconnect policy3 ?h) = [\<lparr>delay = 2000, pending = False\<rparr>]"
    by (simp add: model_defs policy3_def)
  show ?thesis
    using reconnect_restarts[OF a(1), of ?h] a b c by (simp del: fire.simps)
qed

text \<open>
  When no event of a replaced handle comes in between, the ladder does restart: however
  the fresh attempt fails (close alone, error and close, or the connection timeout first),
  the retry it schedules is retry 1, with the base delay.
\<close>

lemma fresh_attempt_fails:
  assumes "s < length (sockets h)" "sockets h ! s = newWebSocket"
    "shouldReconnect opts" "retriesRef h < maxRetries opts"
  shows "\<exists>h'. run opts (failure_events s f) h = Some h'
      \<and> retriesRef h' = retriesRef h + 1
      \<and> timers h' = timers h @ [\<lparr>delay = retryDelay opts * 2 ^ retriesRef h, pending = True\<rparr>]"
  using assms
  by (cases f)
    (simp_all add: step_def upd_socket_def connectionTimeout_def ws_close_def handleError_def
      handleClose_def setRetryTimeout_def Let_def newWebSocket_def)

theorem reconnect_then_failure:
  assumes "url_ok opts" and "shouldReconnect opts" and "0 < maxRetries opts"
  shows "\<exists>h'. run opts (failure_events (length (sockets h)) f) (reconnect opts h) = Some h'
      \<and> retriesRef h' = 1
      \<and> timers h' = timers (reconnect opts h) @ [\<lparr>delay = retryDelay opts, pending = True\<rparr>]"
proof -
  note r = reconnect_restarts[OF assms(1), of h]
  have a: "length (sockets h) < length (sockets (reconnect opts h))"
    "sockets (reconnect opts h) ! length (sockets h) = newWebSocket"
    "retriesRef (reconnect opts h) = 0"
    using r by simp_all
  show ?thesis
    using fresh_attempt_fails[OF a(1,2) assms(2), of f] a(3) assms(3) by simp
qed

theorem reconnect_then_failure_witness:
  "url_ok policy3 \<and> shouldReconnect policy3 \<and> 0 < maxRetries policy3
   \<and> length (sockets (fire policy3 (SockClose 0) (mount policy3))) = 1
   \<and> (\<exists>h'. run policy3 [ConnTimeoutFire 1, SockError 1, SockClose 1]
              (reconnect policy3 (fire policy3 (SockClose 0) (mount policy3))) = Some h'
        \<and> retriesRef h' = 1
        \<and> timers h' = [\<lparr>delay = 2000, pending = False\<rparr>, \<lparr>delay = 2000, pending = True\<rparr>])"
proof -
  let ?h = "fire policy3 (SockClose 0) (mount policy3)"
  have a: "url_ok policy3" "shouldReconnect policy3" "0 < maxRetries policy3"
    "retryDelay policy3 = 2000"
    by (simp_all add: policy3_def)
  have b: "length (sockets ?h) = 1"
    by (simp add: model_defs policy3_def)
  have c: "timers (reconnect policy3 ?h) = [\<lparr>delay = 2000, pending = False\<rparr>]"
    by (simp add: model_defs policy3_def)
  show ?thesis
    using reconnect_then_failure[OF a(1,2,3), of ?h TimedOut] a b c
    by (simp del: fire.simps)
qed

section \<open>One connecting or open handle\<close>

lemma one_active_updates [simp]:
  "one_active (h\<lparr>state := a\<rparr>) = one_active h"
  "one_active (h\<lparr>lastMessage := b\<rparr>) = one_active h"
  "one_active (h\<lparr>error := c\<rparr>) = one_active h"
  "one_active (h\<lparr>retriesRef := d\<rparr>) = one_active h"
  "one_active (h\<lparr>retryTimeoutRef := e\<rparr>) = one_active h"
  "one_active (h\<lparr>messageQueueRef := f\<rparr>) = one_active h"
  "one_active (h\<lparr>timers := g\<rparr>) = one_active h"
  "one_active (h\<lparr>callbacks := i\<rparr>) = one_active h"
  by (simp_all add: one_active_def)

lemma one_active_clearTimeout [simp]: "one_active (clearTimeout r h) = one_active h"
  by (simp add: one_active_def)

lemma one_active_setRetryTimeout [simp]: "one_active (setRetryTimeout d h) = one_active h"
  by (simp add: one_active_def)

lemma one_active_upd:
  "\<lbrakk>one_active h; \<And>ws. active (f ws) \<Longrightarrow> active ws\<rbrakk> \<Longrightarrow> one_active (upd_socket s f h)"
  by (auto simp: one_active_def upd_socket_nth)

lemma one_active_initial: "one_active initial"
  by (simp add: one_active_def initial_def)

lemma active_ws_close [simp]: "\<not> active (ws_close ws)"
  by (simp add: active_def ws_close_def)

lemma close_current_none_active:
  assumes "one_active h" "currentReadyState h \<noteq> Some WS_OPEN"
  defines "h1 \<equiv> (case webSocketRef h of
                    None \<Rightarrow> h
                  | Some c \<Rightarrow>
                      if currentReadyState h \<noteq> Some WS_CLOSED then upd_socket c ws_close h
                      else h)"
  shows "length (sockets h1) = length (sockets h)"
    and "webSocketRef h1 = webSocketRef h"
    and "s < length (sockets h) \<Longrightarrow> \<not> active (sockets h1 ! s)"
proof -
  show "length (sockets h1) = length (sockets h)" "webSocketRef h1 = webSocketRef h"
    by (simp_all add: h1_def split: option.splits)
  assume s: "s < length (sockets h)"
  show "\<not> active (sockets h1 ! s)"
  proof (cases "webSocketRef h = Some s")
    case True
    then have crs: "currentReadyState h = Some (readyState (sockets h ! s))"
      using s by (simp add: currentReadyState_def)
    show ?thesis
    proof (cases "readyState (sockets h ! s) = WS_CLOSED")
      case True
      then show ?thesis using \<open>webSocketRef h = Some s\<close> crs
        by (simp add: h1_def active_def)
    next
      case False
      then show ?thesis using \<open>webSocketRef h = Some s\<close> crs s
        by (simp add: h1_def upd_socket_nth)
    qed
  next
    case False
    with assms(1) s have n: "\<not> active (sockets h ! s)"
      by (auto simp: one_active_def)
    show ?thesis using n False s
      by (auto simp: h1_def upd_socket_nth split: option.splits)
  qed
qed

lemma one_active_connect:
  assumes "one_active h"
  shows "one_active (connect opts h)"
proof (cases "currentReadyState h = Some WS_OPEN")
  case True
  then show ?thesis using assms by (simp add: connect_def)
next
  case False
  define h1 where "h1 = (case webSocketRef h of
                    None \<Rightarrow> h
                  | Some c \<Rightarrow>
                      if currentReadyState h \<noteq> Some WS_CLOSED then upd_socket c ws_close h
                      else h)"
  note f = close_current_none_active[OF assms False, folded h1_def]
  have c: "connect opts h =
      (if url_ok opts then
         h1\<lparr>state := CONNECTING, sockets := sockets h1 @ [newWebSocket],
            webSocketRef := Some (length (sockets h1))\<rparr>
       else h1\<lparr>state := CLOSED, error := Some CreationError,
            callbacks := callbacks h1 @ [OnError CreationError]\<rparr>)"
    using False by (simp add: connect_def h1_def Let_def)
  show ?thesis
    unfolding c using f by (auto simp: one_active_def nth_append)
qed

lemma one_active_upd_same:
  "(\<And>ws. readyState (f ws) = readyState ws) \<Longrightarrow> one_active (upd_socket s f h) = one_active h"
  by (auto simp: one_active_def upd_socket_nth active_def)

lemma one_active_close: "one_active h \<Longrightarrow> one_active (upd_socket s ws_close h)"
  by (rule one_active_upd) simp_all

lemma one_active_handleOpen: "one_active h \<Longrightarrow> one_active (handleOpen rs s h)"
  by (simp add: handleOpen_def Let_def case_prod_beta one_active_upd_same)

lemma one_active_handleMessage: "one_active h \<Longrightarrow> one_active (handleMessage d h)"
  by (simp add: handleMessage_def split: inbound.splits)

lemma one_active_handleError: "one_active h \<Longrightarrow> one_active (handleError s h)"
  by (simp add: handleError_def Let_def one_active_upd_same)

lemma one_active_handleClose: "one_active h \<Longrightarrow> one_active (handleClose opts s h)"
  by (simp add: handleClose_def Let_def one_active_upd_same)

lemma one_active_sendMessage: "one_active h \<Longrightarrow> one_active (sendMessage m h)"
  by (simp add: sendMessage_def one_active_upd_same split: option.splits)

lemma one_active_reconnect: "one_active h \<Longrightarrow> one_active (reconnect opts h)"
  unfolding reconnect_unfold
  by (rule one_active_connect)
    (simp add: before_connect_def one_active_close split: option.splits)

lemma one_active_cleanup: "one_active h \<Longrightarrow> one_active (cleanup h)"
  by (simp add: cleanup_def Let_def one_active_close split: option.splits)

lemma one_active_open:
  assumes "one_active h" "enabled (SockOpen s) h"
  shows "one_active (upd_socket s (\<lambda>ws. ws\<lparr>readyState := WS_OPEN\<rparr>) h)"
  using assms by (auto simp: one_active_def upd_socket_nth active_def)

lemma one_active_fire:
  assumes "one_active h" "enabled ev h"
  shows "one_active (fire opts ev h)"
proof (cases ev)
  case (SockOpen s)
  then show ?thesis using assms one_active_open[of h s]
    by (simp add: Let_def one_active_handleOpen del: enabled.simps)
next
  case (SockClose s)
  have "one_active (upd_socket s (\<lambda>ws. ws\<lparr>readyState := WS_CLOSED\<rparr>) h)"
    using assms(1) by (rule one_active_upd) (simp add: active_def)
  then show ?thesis using SockClose by (simp add: Let_def one_active_handleClose)
next
  case (ConnTimeoutFire s)
  have "one_active (upd_socket s (\<lambda>ws. ws\<lparr>connectionTimeoutId := False\<rparr>) h)"
    using assms(1) by (rule one_active_upd) (simp add: active_def)
  then show ?thesis using ConnTimeoutFire
    by (simp add: connectionTimeout_def one_active_close)
next
  case (RetryFire t)
  then show ?thesis using assms(1) by (simp add: one_active_connect)
qed (use assms(1) in \<open>simp_all add: one_active_handleMessage one_active_handleError
      one_active_sendMessage one_active_reconnect one_active_cleanup\<close>)

lemma one_active_run:
  "\<lbrakk>run opts evs h = Some h'; one_active h\<rbrakk> \<Longrightarrow> one_active h'"
proof (induction evs arbitrary: h)
  case Nil
  then show ?case by simp
next
  case (Cons ev evs)
  from Cons.prems(1) have en: "enabled ev h" and r: "run opts evs (fire opts ev h) = Some h'"
    by (auto simp: step_def split: if_splits)
  show ?case using Cons.IH[OF r one_active_fire[OF Cons.prems(2) en]] .
qed

lemma one_active_mount: "one_active (mount opts)"
  unfolding mount_def by (rule one_active_connect[OF one_active_initial])

text \<open>
  Claim C4. At most one retry timer should be pending and at most one handle should be
  able to deliver events to the hook. \<open>connect\<close> and \<open>reconnect\<close> call \<open>close()\<close> on the
  handle they replace and leave its listeners attached. In the first run below the
  consumer calls \<open>reconnect\<close> during the first attempt: socket 0 is closing and socket 1
  connecting, both with their listeners and their connection timers. In the second run
  both sockets then fail: each close event runs handleClose and schedules a retry, so two
  retry timers are pending at once (2000 ms and 4000 ms), and \<open>retryTimeoutRef\<close>, which
  \<open>reconnect\<close> and the cleanup clear, refers to the second only.
\<close>

theorem two_pending_retry_timers:
  "run policy3 [Reconnect] (mount policy3) =
     Some \<lparr>state = CONNECTING, lastMessage = None, error = None, webSocketRef = Some 1,
       retriesRef = 0, retryTimeoutRef = None, messageQueueRef = [],
       sockets = [\<lparr>readyState = WS_CLOSING, listeners = True, connectionTimeoutId = True, sent = []\<rparr>,
                  \<lparr>readyState = WS_CONNECTING, listeners = True, connectionTimeoutId = True, sent = []\<rparr>],
       timers = [], callbacks = []\<rparr>
   \<and> run policy3 [Reconnect, SockClose 0, SockClose 1] (mount policy3) =
     Some \<lparr>state = CLOSED, lastMessage = None, error = None, webSocketRef = Some 1,
       retriesRef = 2, retryTimeoutRef = Some 1, messageQueueRef = [],
       sockets = [closedSocket, closedSocket],
       timers = [\<lparr>delay = 2000, pending = True\<rparr>, \<lparr>delay = 4000, pending = True\<rparr>],
       callbacks = [OnDisconnect, OnDisconnect]\<rparr>"
  by (simp add: model_defs policy3_def closedSocket_def)

text \<open>
  What does hold in every state the hook can reach from its mount: at most one handle is
  connecting or open, and it is the one in \<open>webSocketRef\<close>. When \<open>connect\<close> starts a new
  attempt it has called \<open>close()\<close> on the prior handle first, so that no earlier handle is
  connecting or open beside the new one; the listeners of the earlier handles are as they
  were.
\<close>

theorem one_connecting_or_open_handle:
  assumes "run opts evs (mount opts) = Some h"
  shows "(\<forall>s < length (sockets h). \<forall>s' < length (sockets h).
            active (sockets h ! s) \<and> active (sockets h ! s') \<longrightarrow> s = s')
    \<and> (\<forall>s < length (sockets h). active (sockets h ! s) \<longrightarrow> webSocketRef h = Some s)
    \<and> (currentReadyState h \<noteq> Some WS_OPEN \<and> url_ok opts \<longrightarrow>
          (\<forall>s < length (sockets h).
              \<not> active (sockets (connect opts h) ! s)
            \<and> listeners (sockets (connect opts h) ! s) = listeners (sockets h ! s))
        \<and> length (sockets (connect opts h)) = length (sockets h) + 1
        \<and> sockets (connect opts h) ! length (sockets h) = newWebSocket)"
proof -
  have inv: "one_active h"
    using one_active_run[OF assms one_active_mount] .
  then have a: "\<forall>s < length (sockets h). active (sockets h ! s) \<longrightarrow> webSocketRef h = Some s"
    by (simp add: one_active_def)
  have u: "\<forall>s < length (sockets h). \<forall>s' < length (sockets h).
            active (sockets h ! s) \<and> active (sockets h ! s') \<longrightarrow> s = s'"
  proof (intro allI impI)
    fix s s'
    assume "s < length (sockets h)" "s' < length (sockets h)"
      "active (sockets h ! s) \<and> active (sockets h ! s')"
    with a have "webSocketRef h = Some s" "webSocketRef h = Some s'" by blast+
    then show "s = s'" by simp
  qed
  have c: "(\<forall>s < length (sockets h).
              \<not> active (sockets (connect opts h) ! s)
            \<and> listeners (sockets (connect opts h) ! s) = listeners (sockets h ! s))
        \<and> length (sockets (connect opts h)) = length (sockets h) + 1
        \<and> sockets (connect opts h) ! length (sockets h) = newWebSocket"
    if n: "currentReadyState h \<noteq> Some WS_OPEN" and ok: "url_ok opts"
  proof -
    note cf = connect_fields[OF ok n]
    have "\<not> active (sockets (connect opts h) ! s)
        \<and> listeners (sockets (connect opts h) ! s) = listeners (sockets h ! s)"
      if s: "s < length (sockets h)" for s
    proof (cases "webSocketRef h = Some s")
      case True
      then show ?thesis using cf(8)[OF s] by simp
    next
      case False
      with a s have "\<not> active (sockets h ! s)" by blast
      then show ?thesis using cf(8)[OF s] False by simp
    qed
    then show ?thesis using cf(6,7) by simp
  qed
  show ?thesis using a u c by blast
qed

theorem one_connecting_or_open_handle_witness:
  "\<exists>h. run policy3 [SockOpen 0, Reconnect, SockClose 0] (mount policy3) = Some h
     \<and> length (sockets h) = 2 \<and> webSocketRef h = Some 1
     \<and> active (sockets h ! 1) \<and> \<not> active (sockets h ! 0)
     \<and> currentReadyState h \<noteq> Some WS_OPEN \<and> url_ok policy3
     \<and> \<not> active (sockets (connect policy3 h) ! 1)
     \<and> listeners (sockets (connect policy3 h) ! 1)
     \<and> sockets (connect policy3 h) ! 2 = newWebSocket"
proof -
  obtain h where r: "run policy3 [SockOpen 0, Reconnect, SockClose 0] (mount policy3) = Some h"
    and f: "length (sockets h) = 2" "webSocketRef h = Some 1" "active (sockets h ! 1)"
      "\<not> active (sockets h ! 0)" "currentReadyState h \<noteq> Some WS_OPEN"
      "listeners (sockets h ! 1)"
    by (simp add: model_defs policy3_def active_def)
  have ok: "url_ok policy3" by (simp add: policy3_def)
  note t = one_connecting_or_open_handle[OF r, THEN conjunct2, THEN conjunct2, rule_format,
      OF conjI, OF f(5) ok]
  have one: "1 < length (sockets h)" using f(1) by simp
  note t1 = t[THEN conjunct1, rule_format, OF one]
  note t2 = t[THEN conjunct2, THEN conjunct2]
  have "sockets (connect policy3 h) ! 2 = newWebSocket"
    using t2 f(1) by simp
  then show ?thesis
    using r f ok t1 f(6) by (intro exI[of _ h]) simp
qed

end
